theory Spec2Isabelle
  imports Complex_Main
begin

section \<open>Data model (types/index.ts)\<close>

text \<open>
  Payloads, schemas and node configuration are \<^verbatim>\<open>any\<close> / \<^verbatim>\<open>Record<string, any>\<close> in the
  source; they are JSON values. The code stores them and passes them on and never computes
  with them, so the numbers inside them are kept as the rationals they denote.
\<close>

datatype json =
    JNull
  | JBool bool
  | JNumber rat
  | JString string
  | JArray "json list"
  | JObject "(string \<times> json) list"

subsection \<open>Numbers the code computes with\<close>

text \<open>
  A JavaScript number is an IEEE 754 binary64 value: a finite double, \<^verbatim>\<open>NaN\<close> or an infinity.
  A finite double is represented by the rational it denotes; the sign of zero is not
  represented.
\<close>

datatype number = Finite rat | NaN | PosInfinity | NegInfinity

text \<open>\<open>ilog2 n\<close> is the position of the leading bit of \<open>n\<close>, for \<open>n \<ge> 1\<close>.\<close>

function ilog2 :: "int \<Rightarrow> int" where
  "ilog2 n = (if n < 2 then 0 else ilog2 (n div 2) + 1)"
  by pat_completeness auto
termination
  by (relation "measure nat") auto

declare ilog2.simps [simp del]

text \<open>The binary exponent of a positive rational \<open>a\<close>: \<open>2 powi e \<le> a < 2 powi (e + 1)\<close>.\<close>

definition exponent :: "rat \<Rightarrow> int" where
  "exponent a =
     (let (p, q) = quotient_of a;
          d = ilog2 p - ilog2 q
      in if 2 powi d \<le> a then d else d - 1)"

definition round_half_even :: "rat \<Rightarrow> int" where
  "round_half_even x =
     (let f = \<lfloor>x\<rfloor>; d = x - of_int f
      in if d < 1 / 2 then f else if 1 / 2 < d then f + 1 else if even f then f else f + 1)"

text \<open>
  The result of an arithmetic operation whose exact value is \<open>x\<close>: the nearest double, a
  tie going to the even significand (53 bits, least exponent \<open>-1022\<close>, so the spacing never
  drops below \<open>2 powi (-1074)\<close>), and an infinity from \<open>2 powi 1024\<close> on.
\<close>

definition binary64 :: "rat \<Rightarrow> number" where
  "binary64 x =
     (if x = 0 then Finite 0
      else (let a = \<bar>x\<bar>;
                e = max (exponent a) (- 1022);
                ulp = 2 powi (e - 52);
                y = of_int (round_half_even (a / ulp)) * ulp
            in if 2 powi 1024 \<le> y then (if 0 < x then PosInfinity else NegInfinity)
               else Finite (if 0 < x then y else - y)))"

text \<open>\<^verbatim>\<open>x + b\<close> and \<^verbatim>\<open>x / d\<close> for a finite \<open>b\<close> and a finite \<open>d > 0\<close>.\<close>

fun js_add :: "number \<Rightarrow> rat \<Rightarrow> number" where
  "js_add (Finite a) b = binary64 (a + b)"
| "js_add NaN b = NaN"
| "js_add PosInfinity b = PosInfinity"
| "js_add NegInfinity b = NegInfinity"

fun js_div :: "number \<Rightarrow> rat \<Rightarrow> number" where
  "js_div (Finite a) d = binary64 (a / d)"
| "js_div NaN d = NaN"
| "js_div PosInfinity d = PosInfinity"
| "js_div NegInfinity d = NegInfinity"

text \<open>
  \<^verbatim>\<open>Math.round\<close>: the nearest integer, a tie going to the larger one. Of a double it is a
  double again, so nothing is rounded a second time.
\<close>

fun Math_round :: "number \<Rightarrow> number" where
  "Math_round (Finite a) = Finite (of_int \<lfloor>a + 1 / 2\<rfloor>)"
| "Math_round NaN = NaN"
| "Math_round PosInfinity = PosInfinity"
| "Math_round NegInfinity = NegInfinity"

subsection \<open>Records\<close>

text \<open>An instant, in milliseconds since the epoch: what \<^verbatim>\<open>Date.now()\<close> returns and what
  \<^verbatim>\<open>new Date().toISOString()\<close> denotes.\<close>

type_synonym timestamp = int

datatype ModelType = Llm | Vision | Tabular | Audio | Embedding | Custom

datatype SecurityPolicy = Public | OrgOnly | Private

datatype ModelStatus = Online | Offline | ErrorStatus

record ModelMetadata =
  id_m :: string
  name :: string
  owner :: string
  endpoint :: string
  modelType :: ModelType
  inputSchema :: json
  outputSchema :: json
  latency :: number
  costPerToken :: "rat option"
  securityPolicy :: SecurityPolicy
  apiKey :: "string option"
  status :: ModelStatus
  healthCheckUrl :: "string option"
  description :: "string option"
  tags :: "string list"
  createdAt :: timestamp
  lastChecked :: "timestamp option"

record PipelineNode =
  id_n :: string
  modelId :: string
  position :: "rat \<times> rat"
  config :: json

record PipelineEdge =
  id_e :: string
  source :: string
  target :: string
  sourceHandle :: "string option"
  targetHandle :: "string option"

record Pipeline =
  id_p :: string
  name_p :: string
  description_p :: "string option"
  nodes :: "PipelineNode list"
  edges :: "PipelineEdge list"
  createdAt_p :: timestamp
  updatedAt_p :: timestamp
  owner_p :: string
  isPublic :: bool

datatype InvocationStatus = InvPending | InvSuccess | InvError

record ModelInvocation =
  id_i :: string
  modelId_i :: string
  input_i :: json
  output_i :: "json option"
  error_i :: "string option"
  latency_i :: number
  tokenUsage :: "(nat \<times> nat \<times> nat) option"
  timestamp_i :: timestamp
  status_i :: InvocationStatus

datatype ExecutionStatus = Pending | Running | Completed | Failed

record PipelineExecution =
  id_x :: string
  pipelineId :: string
  status_x :: ExecutionStatus
  startedAt :: timestamp
  completedAt :: "timestamp option"
  invocations :: "ModelInvocation list"
  totalLatency :: "int option"
  totalCost :: "rat option"


text \<open>
  \<^verbatim>\<open>Partial<ModelMetadata>\<close>: \<open>None\<close> is a key that is absent from the object. For
  the fields that are themselves optional, \<open>Some None\<close> is a key present with the
  value \<^verbatim>\<open>undefined\<close>, which the object spread copies like any other value.
\<close>

record ModelUpdate =
  id_u :: "string option"
  name_u :: "string option"
  owner_u :: "string option"
  endpoint_u :: "string option"
  modelType_u :: "ModelType option"
  inputSchema_u :: "json option"
  outputSchema_u :: "json option"
  latency_u :: "number option"
  costPerToken_u :: "rat option option"
  securityPolicy_u :: "SecurityPolicy option"
  apiKey_u :: "string option option"
  status_u :: "ModelStatus option"
  healthCheckUrl_u :: "string option option"
  description_u :: "string option option"
  tags_u :: "string list option"
  createdAt_u :: "timestamp option"
  lastChecked_u :: "timestamp option option"

text \<open>The object literal \<^verbatim>\<open>{}\<close> at type \<^verbatim>\<open>Partial<ModelMetadata>\<close>.\<close>

definition no_updates :: ModelUpdate where
  "no_updates =
     \<lparr> id_u = None, name_u = None, owner_u = None, endpoint_u = None, modelType_u = None,
       inputSchema_u = None, outputSchema_u = None, latency_u = None, costPerToken_u = None,
       securityPolicy_u = None, apiKey_u = None, status_u = None, healthCheckUrl_u = None,
       description_u = None, tags_u = None, createdAt_u = None, lastChecked_u = None \<rparr>"

section \<open>The platform: key-value store, clock, network\<close>

datatype js_error = Error string | TypeError string | SyntaxError string

text \<open>The text that \<^verbatim>\<open>JSON.stringify\<close> makes of a value, kept symbolic.\<close>

datatype request_body = JSON_stringify json

record fetch_request =
  url :: string
  "method" :: string
  headers :: "(string \<times> string) list"
  body :: request_body

text \<open>
  What the remote side does with one \<^verbatim>\<open>fetch\<close>: the promise rejects (network failure), or
  a response arrives with its \<^verbatim>\<open>ok\<close> flag, its \<^verbatim>\<open>statusText\<close> and what
  \<^verbatim>\<open>response.json()\<close> would give (a value, or the parse error it throws). The first
  component is the change of the clock, in milliseconds, until the awaited promises settle
  (negative when the system clock is set back meanwhile).
\<close>

datatype fetch_outcome =
    Rejects int js_error
  | Responds int bool string "js_error + json"

text \<open>The remote side, as a function of how many calls were issued before and of the request.\<close>

type_synonym remote = "nat \<Rightarrow> fetch_request \<Rightarrow> fetch_outcome"

text \<open>
  The keys \<^verbatim>\<open>models\<close>, \<^verbatim>\<open>pipelines\<close> and \<^verbatim>\<open>executions\<close> of \<^verbatim>\<open>spark.kv\<close> (each unset or
  holding an array), the clock read by \<^verbatim>\<open>Date.now()\<close>, and the log of the requests handed to
  \<^verbatim>\<open>fetch\<close>, oldest first. The store is total (its calls do not fail) and hands back
  what was stored, and the clock changes only while a \<^verbatim>\<open>fetch\<close> is awaited.
\<close>

record world =
  kv_models :: "ModelMetadata list option"
  kv_pipelines :: "Pipeline list option"
  kv_executions :: "PipelineExecution list option"
  clock :: int
  network :: "fetch_request list"

definition digit_char :: "nat \<Rightarrow> char" where
  "digit_char n = ''0123456789'' ! n"

fun show_nat :: "nat \<Rightarrow> string" where
  "show_nat n = (if n < 10 then [digit_char n] else show_nat (n div 10) @ [digit_char (n mod 10)])"

declare show_nat.simps [simp del]

definition show_int :: "int \<Rightarrow> string" where
  "show_int i = (if i < 0 then CHR ''-'' # show_nat (nat (- i)) else show_nat (nat i))"

section \<open>ModelRegistry (lib/api.ts)\<close>

text \<open>\<^verbatim>\<open>Array.prototype.findIndex\<close>: the first index whose element passes, or \<open>-1\<close>.\<close>

fun findIndex :: "('a \<Rightarrow> bool) \<Rightarrow> 'a list \<Rightarrow> int" where
  "findIndex P [] = - 1"
| "findIndex P (x # xs) =
     (if P x then 0 else (let i = findIndex P xs in if i = - 1 then - 1 else i + 1))"

definition getAllModels :: "world \<Rightarrow> ModelMetadata list" where
  "getAllModels s = (case kv_models s of None \<Rightarrow> [] | Some ms \<Rightarrow> ms)"

definition getModelById :: "world \<Rightarrow> string \<Rightarrow> ModelMetadata option" where
  "getModelById s i = find (\<lambda>m. id_m m = i) (getAllModels s)"


text \<open>The object spread \<^verbatim>\<open>{ ...m, ...updates }\<close>.\<close>

definition spread :: "ModelMetadata \<Rightarrow> ModelUpdate \<Rightarrow> ModelMetadata" where
  "spread m u =
     \<lparr> id_m = (case id_u u of None \<Rightarrow> id_m m | Some v \<Rightarrow> v),
       name = (case name_u u of None \<Rightarrow> name m | Some v \<Rightarrow> v),
       owner = (case owner_u u of None \<Rightarrow> owner m | Some v \<Rightarrow> v),
       endpoint = (case endpoint_u u of None \<Rightarrow> endpoint m | Some v \<Rightarrow> v),
       modelType = (case modelType_u u of None \<Rightarrow> modelType m | Some v \<Rightarrow> v),
       inputSchema = (case inputSchema_u u of None \<Rightarrow> inputSchema m | Some v \<Rightarrow> v),
       outputSchema = (case outputSchema_u u of None \<Rightarrow> outputSchema m | Some v \<Rightarrow> v),
       latency = (case latency_u u of None \<Rightarrow> latency m | Some v \<Rightarrow> v),
       costPerToken = (case costPerToken_u u of None \<Rightarrow> costPerToken m | Some v \<Rightarrow> v),
       securityPolicy = (case securityPolicy_u u of None \<Rightarrow> securityPolicy m | Some v \<Rightarrow> v),
       apiKey = (case apiKey_u u of None \<Rightarrow> apiKey m | Some v \<Rightarrow> v),
       status = (case status_u u of None \<Rightarrow> status m | Some v \<Rightarrow> v),
       healthCheckUrl = (case healthCheckUrl_u u of None \<Rightarrow> healthCheckUrl m | Some v \<Rightarrow> v),
       description = (case description_u u of None \<Rightarrow> description m | Some v \<Rightarrow> v),
       tags = (case tags_u u of None \<Rightarrow> tags m | Some v \<Rightarrow> v),
       createdAt = (case createdAt_u u of None \<Rightarrow> createdAt m | Some v \<Rightarrow> v),
       lastChecked = (case lastChecked_u u of None \<Rightarrow> lastChecked m | Some v \<Rightarrow> v) \<rparr>"

definition updateModel :: "string \<Rightarrow> ModelUpdate \<Rightarrow> world \<Rightarrow> ModelMetadata option \<times> world" where
  "updateModel i updates s =
     (let models = getAllModels s;
          index = findIndex (\<lambda>m. id_m m = i) models
      in if index = - 1 then (None, s)
         else (let models' = models[nat index := spread (models ! nat index) updates]
               in (Some (models' ! nat index), s\<lparr>kv_models := Some models'\<rparr>)))"

section \<open>ExecutionEngine (lib/api.ts)\<close>

fun elapsed :: "fetch_outcome \<Rightarrow> int" where
  "elapsed (Rejects t e) = t"
| "elapsed (Responds t ok statusText j) = t"

text \<open>\<^verbatim>\<open>await fetch(...)\<close>: the request is logged, the remote side answers, the clock moves.\<close>

definition fetch :: "remote \<Rightarrow> fetch_request \<Rightarrow> world \<Rightarrow> fetch_outcome \<times> world" where
  "fetch env req s =
     (let out = env (length (network s)) req
      in (out, s\<lparr>clock := clock s + elapsed out, network := network s @ [req]\<rparr>))"

text \<open>
  What the statements of the \<^verbatim>\<open>try\<close> block from \<^verbatim>\<open>fetch\<close> to \<^verbatim>\<open>response.json()\<close> yield: the
  parsed output, or the error thrown (by \<^verbatim>\<open>fetch\<close>, by the \<^verbatim>\<open>!response.ok\<close> guard, or by the
  parser).
\<close>

fun response_result :: "fetch_outcome \<Rightarrow> js_error + json" where
  "response_result (Rejects t e) = Inl e"
| "response_result (Responds t ok statusText j) =
     (if \<not> ok then Inl (Error (''Model invocation failed: '' @ statusText)) else j)"

text \<open>The request that \<^verbatim>\<open>invokeSingleModel\<close> builds; an empty \<^verbatim>\<open>apiKey\<close> is falsy.\<close>

definition build_request :: "ModelMetadata \<Rightarrow> json \<Rightarrow> fetch_request" where
  "build_request model input =
     (let headers0 = [(''Content-Type'', ''application/json'')];
          headers1 = (case apiKey model of
                        None \<Rightarrow> headers0
                      | Some k \<Rightarrow> if k \<noteq> [] then headers0 @ [(''Authorization'', ''Bearer '' @ k)]
                                  else headers0)
      in \<lparr> url = endpoint model, method = ''POST'', headers = headers1,
            body = JSON_stringify input \<rparr>)"

text \<open>
  \<^verbatim>\<open>invokeSingleModel\<close>: \<open>Inl\<close> is the error the promise rejects with, \<open>Inr\<close> the
  output it resolves to.
\<close>

definition invokeSingleModel :: "remote \<Rightarrow> string \<Rightarrow> json \<Rightarrow> world \<Rightarrow> (js_error + json) \<times> world" where
  "invokeSingleModel env mid input s =
     (case getModelById s mid of
        None \<Rightarrow> (Inl (Error (''Model '' @ mid @ '' not found'')), s)
      | Some model \<Rightarrow>
          (let startTime = clock s;
               (outcome, s1) = fetch env (build_request model input) s
           in case response_result outcome of
                Inr output \<Rightarrow>
                  (let lat = clock s1 - startTime;
                       updatedLatency = Math_round (js_div (js_add (latency model) (of_int lat)) 2)
                   in (Inr output,
                       snd (updateModel mid
                              (no_updates\<lparr> latency_u := Some updatedLatency,
                                           status_u := Some Online,
                                           lastChecked_u := Some (Some (clock s1)) \<rparr>) s1)))
              | Inl err \<Rightarrow>
                  (Inl err,
                   snd (updateModel mid
                          (no_updates\<lparr> status_u := Some ErrorStatus,
                                       lastChecked_u := Some (Some (clock s1)) \<rparr>) s1))))"

text \<open>The loop \<^verbatim>\<open>for (const node of pipeline.nodes)\<close>; a throw leaves it.\<close>

fun run_nodes :: "remote \<Rightarrow> PipelineNode list \<Rightarrow> json \<Rightarrow> world \<Rightarrow> (js_error + json) \<times> world" where
  "run_nodes env [] currentOutput s = (Inr currentOutput, s)"
| "run_nodes env (node # rest) currentOutput s =
     (case invokeSingleModel env (modelId node) currentOutput s of
        (Inl err, s1) \<Rightarrow> (Inl err, s1)
      | (Inr invocation, s1) \<Rightarrow> run_nodes env rest invocation s1)"

definition getAllExecutions :: "world \<Rightarrow> PipelineExecution list" where
  "getAllExecutions s = (case kv_executions s of None \<Rightarrow> [] | Some xs \<Rightarrow> xs)"

text \<open>\<^verbatim>\<open>executePipeline\<close>; \<open>rnd\<close> is the random text that ends the execution id.\<close>

definition executePipeline ::
  "remote \<Rightarrow> string \<Rightarrow> Pipeline \<Rightarrow> json \<Rightarrow> world \<Rightarrow> PipelineExecution \<times> world" where
  "executePipeline env rnd pipeline initialInput s =
     (let execution =
            \<lparr> id_x = ''exec_'' @ show_int (clock s) @ ''_'' @ rnd, pipelineId = id_p pipeline,
              status_x = Running, startedAt = clock s, completedAt = None, invocations = [],
              totalLatency = None, totalCost = None \<rparr>;
          (r, s1) = run_nodes env (nodes pipeline) initialInput s;
          execution' =
            (case r of
               Inr out \<Rightarrow>
                 execution\<lparr> status_x := Completed, completedAt := Some (clock s1),
                            totalLatency := Some (clock s1 - startedAt execution) \<rparr>
             | Inl err \<Rightarrow> execution\<lparr> status_x := Failed, completedAt := Some (clock s1) \<rparr>);
          executions = getAllExecutions s1
      in (execution', s1\<lparr>kv_executions := Some (executions @ [execution'])\<rparr>))"

section \<open>Callers of the registry (ModelRegistrationForm.tsx, App.tsx)\<close>







section \<open>Notions of the specification that the source does not implement\<close>

datatype validation = Valid | ValidationError string string

text \<open>
  Modelled from the spec: the Schema Validator, \<^verbatim>\<open>validate(value, schema)\<close>, which is
  missing from the source (no function of \<^verbatim>\<open>lib/api.ts\<close> reads a schema). It has the keywords
  the specification lists as the minimum (type checking, \<^verbatim>\<open>required\<close>, \<^verbatim>\<open>enum\<close>, numeric
  \<^verbatim>\<open>minimum\<close> and \<^verbatim>\<open>maximum\<close>, string \<^verbatim>\<open>maxLength\<close>), applied to the value itself; every other
  keyword is ignored. The error carries the violation path and the reason.
\<close>

definition type_matches :: "string \<Rightarrow> json \<Rightarrow> bool" where
  "type_matches t v =
     (if t = ''object'' then (case v of JObject kvs \<Rightarrow> True | _ \<Rightarrow> False)
      else if t = ''array'' then (case v of JArray vs \<Rightarrow> True | _ \<Rightarrow> False)
      else if t = ''string'' then (case v of JString x \<Rightarrow> True | _ \<Rightarrow> False)
      else if t = ''number'' then (case v of JNumber q \<Rightarrow> True | _ \<Rightarrow> False)
      else if t = ''integer'' then (case v of JNumber q \<Rightarrow> of_int \<lfloor>q\<rfloor> = q | _ \<Rightarrow> False)
      else if t = ''boolean'' then (case v of JBool b \<Rightarrow> True | _ \<Rightarrow> False)
      else True)"

definition check_type :: "(string \<times> json) list \<Rightarrow> json \<Rightarrow> validation" where
  "check_type kw v =
     (case map_of kw ''type'' of
        Some (JString t) \<Rightarrow> if type_matches t v then Valid else ValidationError [] (''type: '' @ t)
      | _ \<Rightarrow> Valid)"

fun first_missing :: "json list \<Rightarrow> (string \<times> json) list \<Rightarrow> string option" where
  "first_missing [] kvs = None"
| "first_missing (JString k # ks) kvs =
     (if map_of kvs k = None then Some k else first_missing ks kvs)"
| "first_missing (other # ks) kvs = first_missing ks kvs"

definition check_required :: "(string \<times> json) list \<Rightarrow> json \<Rightarrow> validation" where
  "check_required kw v =
     (case (map_of kw ''required'', v) of
        (Some (JArray ks), JObject kvs) \<Rightarrow>
          (case first_missing ks kvs of None \<Rightarrow> Valid | Some k \<Rightarrow> ValidationError k ''required'')
      | _ \<Rightarrow> Valid)"

definition check_enum :: "(string \<times> json) list \<Rightarrow> json \<Rightarrow> validation" where
  "check_enum kw v =
     (case map_of kw ''enum'' of
        Some (JArray vs) \<Rightarrow> if List.member vs v then Valid else ValidationError [] ''enum''
      | _ \<Rightarrow> Valid)"

definition check_minimum :: "(string \<times> json) list \<Rightarrow> json \<Rightarrow> validation" where
  "check_minimum kw v =
     (case (map_of kw ''minimum'', v) of
        (Some (JNumber lo), JNumber q) \<Rightarrow> if q < lo then ValidationError [] ''minimum'' else Valid
      | _ \<Rightarrow> Valid)"

definition check_maximum :: "(string \<times> json) list \<Rightarrow> json \<Rightarrow> validation" where
  "check_maximum kw v =
     (case (map_of kw ''maximum'', v) of
        (Some (JNumber hi), JNumber q) \<Rightarrow> if hi < q then ValidationError [] ''maximum'' else Valid
      | _ \<Rightarrow> Valid)"

definition check_maxLength :: "(string \<times> json) list \<Rightarrow> json \<Rightarrow> validation" where
  "check_maxLength kw v =
     (case (map_of kw ''maxLength'', v) of
        (Some (JNumber n), JString x) \<Rightarrow>
          if n < of_nat (length x) then ValidationError [] ''maxLength'' else Valid
      | _ \<Rightarrow> Valid)"

definition validate :: "json \<Rightarrow> json \<Rightarrow> validation" where
  "validate v schema =
     (case schema of
        JObject kw \<Rightarrow>
          (case find (\<lambda>r. r \<noteq> Valid)
                  [check_type kw v, check_required kw v, check_enum kw v, check_minimum kw v,
                   check_maximum kw v, check_maxLength kw v] of
             None \<Rightarrow> Valid
           | Some e \<Rightarrow> e)
      | _ \<Rightarrow> Valid)"

text \<open>
  The specification's words "the node/edge set contains a cycle": some node reaches itself
  along one or more edges. The source has no such test; this definition is what the
  specification's claim about cycles is measured against.
\<close>

definition edge_rel :: "Pipeline \<Rightarrow> (string \<times> string) set" where
  "edge_rel p = (\<lambda>e. (source e, target e)) ` set (edges p)"

definition has_cycle :: "Pipeline \<Rightarrow> bool" where
  "has_cycle p = (\<exists>n \<in> set (map id_n (nodes p)). (n, n) \<in> (edge_rel p)\<^sup>+)"

section \<open>A small directory, three remotes and three pipelines\<close>

text \<open>The input schema that the registration form proposes: an object with a \<^verbatim>\<open>prompt\<close>.\<close>

definition prompt_schema :: json where
  "prompt_schema =
     JObject [(''type'', JString ''object''),
              (''properties'', JObject [(''prompt'', JObject [(''type'', JString ''string'')])]),
              (''required'', JArray [JString ''prompt''])]"

definition response_schema :: json where
  "response_schema =
     JObject [(''type'', JString ''object''),
              (''properties'', JObject [(''response'', JObject [(''type'', JString ''string'')])])]"

definition example_model :: "string \<Rightarrow> string \<Rightarrow> string option \<Rightarrow> ModelMetadata" where
  "example_model i ep k =
     \<lparr> id_m = i, name = i, owner = ''team'', endpoint = ep, modelType = Custom,
       inputSchema = prompt_schema, outputSchema = response_schema, latency = Finite 2000,
       costPerToken = None, securityPolicy = Public, apiKey = k, status = Offline,
       healthCheckUrl = None, description = None, tags = [], createdAt = 0,
       lastChecked = None \<rparr>"

definition model_A :: ModelMetadata where
  "model_A = example_model ''A'' ''http://a'' (Some ''secret'')"

definition model_B :: ModelMetadata where
  "model_B = example_model ''B'' ''http://b'' None"

definition model_C :: ModelMetadata where
  "model_C = example_model ''C'' ''http://c'' (Some [])"

definition empty_world :: world where
  "empty_world =
     \<lparr> kv_models = None, kv_pipelines = None, kv_executions = None, clock = 0, network = [] \<rparr>"

definition example_world :: world where
  "example_world = empty_world\<lparr> kv_models := Some [model_A, model_B, model_C], clock := 1000 \<rparr>"

definition good_output :: json where
  "good_output = JObject [(''response'', JString ''ok'')]"

definition prompt_input :: json where
  "prompt_input = JObject [(''prompt'', JString ''Hello'')]"

text \<open>Every endpoint answers \<open>200 OK\<close> after 501 ms.\<close>

definition remote_up :: remote where
  "remote_up k req = Responds 501 True ''OK'' (Inr good_output)"

text \<open>The endpoint of model B answers \<open>500\<close> on every call; the others answer \<open>200 OK\<close>.\<close>

definition remote_B_down :: remote where
  "remote_B_down k req =
     (if url req = ''http://b'' then Responds 40 False ''Internal Server Error'' (Inr JNull)
      else Responds 501 True ''OK'' (Inr good_output))"



definition example_node :: "string \<Rightarrow> string \<Rightarrow> PipelineNode" where
  "example_node n m = \<lparr> id_n = n, modelId = m, position = (0, 0), config = JObject [] \<rparr>"

definition example_edge :: "string \<Rightarrow> string \<Rightarrow> PipelineEdge" where
  "example_edge a b =
     \<lparr> id_e = a @ ''-'' @ b, source = a, target = b, sourceHandle = None, targetHandle = None \<rparr>"

definition example_pipeline :: "PipelineNode list \<Rightarrow> PipelineEdge list \<Rightarrow> Pipeline" where
  "example_pipeline ns es =
     \<lparr> id_p = ''p1'', name_p = ''Test Execution'', description_p = None, nodes = ns, edges = es,
       createdAt_p = 0, updatedAt_p = 0, owner_p = ''team'', isPublic = False \<rparr>"

text \<open>The chain A \<open>\<rightarrow>\<close> B \<open>\<rightarrow>\<close> C, its nodes listed in the order of the chain.\<close>

definition chain_in_order :: Pipeline where
  "chain_in_order =
     example_pipeline
       [example_node ''nA'' ''A'', example_node ''nB'' ''B'', example_node ''nC'' ''C'']
       [example_edge ''nA'' ''nB'', example_edge ''nB'' ''nC'']"

text \<open>The same chain A \<open>\<rightarrow>\<close> B \<open>\<rightarrow>\<close> C, its nodes listed as A, C, B.\<close>

definition chain_out_of_order :: Pipeline where
  "chain_out_of_order =
     example_pipeline
       [example_node ''nA'' ''A'', example_node ''nC'' ''C'', example_node ''nB'' ''B'']
       [example_edge ''nA'' ''nB'', example_edge ''nB'' ''nC'']"

text \<open>Two nodes that feed each other.\<close>

definition cyclic_pipeline :: Pipeline where
  "cyclic_pipeline =
     example_pipeline
       [example_node ''nA'' ''A'', example_node ''nC'' ''C'']
       [example_edge ''nA'' ''nC'', example_edge ''nC'' ''nA'']"

definition status_latency_update :: ModelUpdate where
  "status_latency_update = no_updates\<lparr> latency_u := Some (Finite 1800), status_u := Some Online \<rparr>"

section \<open>Facts about doubles\<close>










section \<open>Facts about \<^verbatim>\<open>findIndex\<close> and \<^verbatim>\<open>find\<close>\<close>

lemma findIndex_lower: "- 1 \<le> findIndex P xs"
  by (induction xs) (auto simp: Let_def)

lemma findIndex_none: "findIndex P xs = - 1 \<longleftrightarrow> (\<forall>x\<in>set xs. \<not> P x)"
proof (induction xs)
  case Nil
  then show ?case by simp
next
  case (Cons x xs)
  have "- 1 \<le> findIndex P xs" by (rule findIndex_lower)
  with Cons show ?case by (auto simp: Let_def)
qed

lemma findIndex_first:
  "findIndex P xs \<noteq> - 1 \<Longrightarrow>
     nat (findIndex P xs) < length xs \<and> P (xs ! nat (findIndex P xs))
     \<and> (\<forall>j < nat (findIndex P xs). \<not> P (xs ! j))"
proof (induction xs)
  case Nil
  then show ?case by simp
next
  case (Cons x xs)
  show ?case
  proof (cases "P x")
    case True
    then show ?thesis by simp
  next
    case False
    with Cons.prems have ne: "findIndex P xs \<noteq> - 1" by (auto simp: Let_def split: if_splits)
    have lo: "- 1 \<le> findIndex P xs" by (rule findIndex_lower)
    from ne lo have nn: "0 \<le> findIndex P xs" by arith
    then have suc: "nat (findIndex P xs + 1) = Suc (nat (findIndex P xs))" by arith
    from Cons.IH [OF ne] False ne show ?thesis
      by (auto simp: Let_def suc less_Suc_eq_0_disj)
  qed
qed

lemma find_findIndex:
  "find P xs = (if findIndex P xs = - 1 then None else Some (xs ! nat (findIndex P xs)))"
proof (induction xs)
  case Nil
  then show ?case by simp
next
  case (Cons x xs)
  have lo: "- 1 \<le> findIndex P xs" by (rule findIndex_lower)
  show ?case
  proof (cases "P x")
    case True
    then show ?thesis by simp
  next
    case False
    show ?thesis
    proof (cases "findIndex P xs = - 1")
      case True
      with False Cons show ?thesis by (simp add: Let_def)
    next
      case ne: False
      with lo have "0 \<le> findIndex P xs" by arith
      then have suc: "nat (findIndex P xs + 1) = Suc (nat (findIndex P xs))" by arith
      have "findIndex P xs + 1 \<noteq> - 1" using lo by arith
      with False ne Cons show ?thesis by (simp add: Let_def suc)
    qed
  qed
qed



subsection \<open>The registry and the engine, step by step\<close>

lemma getAllModels_frame [simp]:
  "getAllModels (s\<lparr>clock := c\<rparr>) = getAllModels s"
  "getAllModels (s\<lparr>network := n\<rparr>) = getAllModels s"
  "getAllModels (s\<lparr>kv_executions := x\<rparr>) = getAllModels s"
  "getAllModels (s\<lparr>kv_models := Some ms\<rparr>) = ms"
  by (simp_all add: getAllModels_def)

lemma getModelById_found:
  assumes "getModelById s mid = Some m"
  shows "\<exists>k. k < length (getAllModels s) \<and> getAllModels s ! k = m \<and> id_m m = mid
             \<and> (\<forall>j<k. id_m (getAllModels s ! j) \<noteq> mid)
             \<and> findIndex (\<lambda>m. id_m m = mid) (getAllModels s) = int k"
proof -
  let ?P = "\<lambda>m. id_m m = mid" and ?ms = "getAllModels s"
  from assms have f: "find ?P ?ms = Some m" by (simp add: getModelById_def)
  then have ne: "findIndex ?P ?ms \<noteq> - 1"
    by (simp add: find_findIndex split: if_splits)
  with f have m: "?ms ! nat (findIndex ?P ?ms) = m"
    by (simp add: find_findIndex)
  have lo: "- 1 \<le> findIndex ?P ?ms" by (rule findIndex_lower)
  with ne have "int (nat (findIndex ?P ?ms)) = findIndex ?P ?ms" by arith
  with findIndex_first [OF ne] m show ?thesis by (intro exI [of _ "nat (findIndex ?P ?ms)"]) auto
qed

lemma updateModel_found:
  assumes "getModelById s mid = Some m"
  shows "\<exists>k. k < length (getAllModels s) \<and> getAllModels s ! k = m \<and> id_m m = mid
             \<and> (\<forall>j<k. id_m (getAllModels s ! j) \<noteq> mid)
             \<and> updateModel mid u s =
                 (Some (spread m u), s\<lparr>kv_models := Some ((getAllModels s)[k := spread m u])\<rparr>)"
proof -
  from getModelById_found [OF assms] obtain k where
    k: "k < length (getAllModels s)" "getAllModels s ! k = m" "id_m m = mid"
       "\<forall>j<k. id_m (getAllModels s ! j) \<noteq> mid"
       "findIndex (\<lambda>m. id_m m = mid) (getAllModels s) = int k" by blast
  then have "updateModel mid u s =
     (Some (spread m u), s\<lparr>kv_models := Some ((getAllModels s)[k := spread m u])\<rparr>)"
    by (simp add: updateModel_def Let_def)
  with k show ?thesis by blast
qed

lemma updateModel_absent:
  assumes "getModelById s mid = None"
  shows "updateModel mid u s = (None, s)"
  using assms by (simp add: getModelById_def find_findIndex updateModel_def Let_def split: if_splits)

lemma updateModel_rest [simp]:
  "network (snd (updateModel mid u s)) = network s"
  "clock (snd (updateModel mid u s)) = clock s"
  "kv_executions (snd (updateModel mid u s)) = kv_executions s"
  "kv_pipelines (snd (updateModel mid u s)) = kv_pipelines s"
  by (simp_all add: updateModel_def Let_def)

lemma getModelById_fetch [simp]:
  "getModelById (snd (fetch env req s)) mid = getModelById s mid"
  by (simp add: fetch_def getModelById_def Let_def)

lemma invokeSingleModel_found:
  assumes "getModelById s mid = Some m"
  shows "invokeSingleModel env mid input s =
     (let out = env (length (network s)) (build_request m input);
          s1 = s\<lparr>clock := clock s + elapsed out,
                 network := network s @ [build_request m input]\<rparr>
      in (response_result out,
          snd (updateModel mid
                 (case response_result out of
                    Inr v \<Rightarrow>
                      no_updates\<lparr> latency_u :=
                                     Some (Math_round
                                             (js_div (js_add (latency m) (of_int (elapsed out))) 2)),
                                        status_u := Some Online,
                                        lastChecked_u := Some (Some (clock s1)) \<rparr>
                  | Inl e \<Rightarrow> no_updates\<lparr> status_u := Some ErrorStatus,
                                        lastChecked_u := Some (Some (clock s1)) \<rparr>) s1)))"
  using assms by (simp add: invokeSingleModel_def fetch_def Let_def split: sum.splits)



subsection \<open>The example directory\<close>

lemma example_models [simp]:
  "getAllModels example_world = [model_A, model_B, model_C]"
  by (simp add: example_world_def empty_world_def getAllModels_def)

lemma example_ids [simp]:
  "id_m model_A = ''A''" "id_m model_B = ''B''" "id_m model_C = ''C''"
  by (simp_all add: model_A_def model_B_def model_C_def example_model_def)

lemma example_lookup:
  "getModelById example_world ''A'' = Some model_A"
  "getModelById example_world ''B'' = Some model_B"
  "getModelById example_world ''C'' = Some model_C"
  "getModelById example_world ''Z'' = None"
  by (simp_all add: getModelById_def)

subsection \<open>Runs on the example directory\<close>

lemmas example_run_defs =
  executePipeline_def invokeSingleModel_def getModelById_def getAllModels_def
  getAllExecutions_def fetch_def updateModel_def build_request_def spread_def no_updates_def
  Let_def example_pipeline_def example_node_def example_edge_def model_A_def model_B_def
  model_C_def example_model_def example_world_def empty_world_def

section \<open>Invoking a model that the directory does not hold\<close>

text \<open>
  Claim C5. For every \<^verbatim>\<open>modelId\<close> that the directory does not hold, the invocation fails at
  once with the error \<^verbatim>\<open>Model <id> not found\<close>, and the world is left exactly as it was: no
  request is issued, nothing is retried, and no model's status or latency changes.
\<close>

theorem invoke_unknown_model:
  "getModelById s mid = None \<Longrightarrow>
     invokeSingleModel env mid input s = (Inl (Error (''Model '' @ mid @ '' not found'')), s)"
  by (simp add: invokeSingleModel_def)

theorem invoke_unknown_model_witness:
  "getModelById example_world ''Z'' = None \<and>
   invokeSingleModel remote_up ''Z'' prompt_input example_world =
     (Inl (Error ''Model Z not found''), example_world)"
  using invoke_unknown_model [of example_world "''Z''" remote_up prompt_input]
  by (simp add: example_lookup)

section \<open>The request on the wire\<close>

text \<open>
  Claim C8. Every invocation of a model that the directory holds issues one request: a
  \<^verbatim>\<open>POST\<close> to the model's endpoint with the header \<^verbatim>\<open>Content-Type: application/json\<close>, with
  the header \<^verbatim>\<open>Authorization: Bearer <apiKey>\<close> exactly when the model has a credential (an
  \<^verbatim>\<open>apiKey\<close> that is present and not the empty text, which the registration form stores as no
  key at all), and with the JSON text of the input as its body.
\<close>

theorem request_wire_shape:
  "getModelById s mid = Some m \<Longrightarrow>
     network (snd (invokeSingleModel env mid input s)) =
       network s @
         [\<lparr> url = endpoint m, method = ''POST'',
            headers = (''Content-Type'', ''application/json'') #
                      (case apiKey m of
                         None \<Rightarrow> []
                       | Some k \<Rightarrow> if k = [] then [] else [(''Authorization'', ''Bearer '' @ k)]),
            body = JSON_stringify input \<rparr>]"
  by (simp add: invokeSingleModel_found Let_def build_request_def split: option.splits)

theorem request_wire_shape_witness:
  "getModelById example_world ''A'' = Some model_A \<and>
   getModelById example_world ''B'' = Some model_B \<and>
   getModelById example_world ''C'' = Some model_C \<and>
   network (snd (invokeSingleModel remote_up ''A'' prompt_input example_world)) =
     [\<lparr> url = ''http://a'', method = ''POST'',
        headers = [(''Content-Type'', ''application/json''), (''Authorization'', ''Bearer secret'')],
        body = JSON_stringify prompt_input \<rparr>] \<and>
   network (snd (invokeSingleModel remote_up ''B'' prompt_input example_world)) =
     [\<lparr> url = ''http://b'', method = ''POST'',
        headers = [(''Content-Type'', ''application/json'')],
        body = JSON_stringify prompt_input \<rparr>] \<and>
   network (snd (invokeSingleModel remote_up ''C'' prompt_input example_world)) =
     [\<lparr> url = ''http://c'', method = ''POST'',
        headers = [(''Content-Type'', ''application/json'')],
        body = JSON_stringify prompt_input \<rparr>]"
  using request_wire_shape [of example_world "''A''" model_A remote_up prompt_input]
        request_wire_shape [of example_world "''B''" model_B remote_up prompt_input]
        request_wire_shape [of example_world "''C''" model_C remote_up prompt_input]
  by (simp add: example_lookup)
     (simp add: model_A_def model_B_def model_C_def example_model_def example_world_def
        empty_world_def)

section \<open>The rolling latency\<close>

lemma id_spread_engine [simp]:
  "id_u u = None \<Longrightarrow> id_m (spread m u) = id_m m"
  by (simp add: spread_def)



lemma example_world_rest [simp]:
  "clock example_world = 1000" "network example_world = []"
  "kv_executions example_world = None" "kv_pipelines example_world = None"
  by (simp_all add: example_world_def empty_world_def)








section \<open>Updating a model\<close>

lemma getModelById_None_iff:
  "getModelById s mid = None \<longleftrightarrow> mid \<notin> id_m ` set (getAllModels s)"
  by (auto simp: getModelById_def find_None_iff)

text \<open>
  Claim C10. If no stored model has the id, \<^verbatim>\<open>updateModel\<close> returns \<^verbatim>\<open>null\<close> and leaves the
  store as it is. If one has, the first such model (at index \<open>k\<close>) is replaced by a record
  that takes every field present in the update from the update and every other field from the
  old record; that record is returned, every other model stays where it was, and nothing else
  in the store changes.
\<close>

theorem updateModel_frame:
  "(mid \<notin> id_m ` set (getAllModels s) \<longrightarrow> updateModel mid u s = (None, s)) \<and>
   (mid \<in> id_m ` set (getAllModels s) \<longrightarrow>
      (\<exists>k m m'.
         k < length (getAllModels s) \<and> getAllModels s ! k = m \<and> id_m m = mid \<and>
         (\<forall>j<k. id_m (getAllModels s ! j) \<noteq> mid) \<and>
         updateModel mid u s = (Some m', s\<lparr>kv_models := Some ((getAllModels s)[k := m'])\<rparr>) \<and>
         id_m m' = (case id_u u of None \<Rightarrow> id_m m | Some v \<Rightarrow> v) \<and>
         name m' = (case name_u u of None \<Rightarrow> name m | Some v \<Rightarrow> v) \<and>
         owner m' = (case owner_u u of None \<Rightarrow> owner m | Some v \<Rightarrow> v) \<and>
         endpoint m' = (case endpoint_u u of None \<Rightarrow> endpoint m | Some v \<Rightarrow> v) \<and>
         modelType m' = (case modelType_u u of None \<Rightarrow> modelType m | Some v \<Rightarrow> v) \<and>
         inputSchema m' = (case inputSchema_u u of None \<Rightarrow> inputSchema m | Some v \<Rightarrow> v) \<and>
         outputSchema m' = (case outputSchema_u u of None \<Rightarrow> outputSchema m | Some v \<Rightarrow> v) \<and>
         latency m' = (case latency_u u of None \<Rightarrow> latency m | Some v \<Rightarrow> v) \<and>
         costPerToken m' = (case costPerToken_u u of None \<Rightarrow> costPerToken m | Some v \<Rightarrow> v) \<and>
         securityPolicy m' =
           (case securityPolicy_u u of None \<Rightarrow> securityPolicy m | Some v \<Rightarrow> v) \<and>
         apiKey m' = (case apiKey_u u of None \<Rightarrow> apiKey m | Some v \<Rightarrow> v) \<and>
         status m' = (case status_u u of None \<Rightarrow> status m | Some v \<Rightarrow> v) \<and>
         healthCheckUrl m' =
           (case healthCheckUrl_u u of None \<Rightarrow> healthCheckUrl m | Some v \<Rightarrow> v) \<and>
         description m' = (case description_u u of None \<Rightarrow> description m | Some v \<Rightarrow> v) \<and>
         tags m' = (case tags_u u of None \<Rightarrow> tags m | Some v \<Rightarrow> v) \<and>
         createdAt m' = (case createdAt_u u of None \<Rightarrow> createdAt m | Some v \<Rightarrow> v) \<and>
         lastChecked m' = (case lastChecked_u u of None \<Rightarrow> lastChecked m | Some v \<Rightarrow> v)))"
proof (intro conjI impI)
  assume "mid \<notin> id_m ` set (getAllModels s)"
  then have "getModelById s mid = None" by (simp add: getModelById_None_iff)
  then show "updateModel mid u s = (None, s)" by (rule updateModel_absent)
next
  assume "mid \<in> id_m ` set (getAllModels s)"
  then have "getModelById s mid \<noteq> None" by (simp add: getModelById_None_iff)
  then obtain m where "getModelById s mid = Some m" by blast
  from updateModel_found [OF this, of u] obtain k where
    k: "k < length (getAllModels s)" "getAllModels s ! k = m" "id_m m = mid"
       "\<forall>j<k. id_m (getAllModels s ! j) \<noteq> mid"
       "updateModel mid u s =
          (Some (spread m u), s\<lparr>kv_models := Some ((getAllModels s)[k := spread m u])\<rparr>)"
    by blast
  show "\<exists>k m m'.
         k < length (getAllModels s) \<and> getAllModels s ! k = m \<and> id_m m = mid \<and>
         (\<forall>j<k. id_m (getAllModels s ! j) \<noteq> mid) \<and>
         updateModel mid u s = (Some m', s\<lparr>kv_models := Some ((getAllModels s)[k := m'])\<rparr>) \<and>
         id_m m' = (case id_u u of None \<Rightarrow> id_m m | Some v \<Rightarrow> v) \<and>
         name m' = (case name_u u of None \<Rightarrow> name m | Some v \<Rightarrow> v) \<and>
         owner m' = (case owner_u u of None \<Rightarrow> owner m | Some v \<Rightarrow> v) \<and>
         endpoint m' = (case endpoint_u u of None \<Rightarrow> endpoint m | Some v \<Rightarrow> v) \<and>
         modelType m' = (case modelType_u u of None \<Rightarrow> modelType m | Some v \<Rightarrow> v) \<and>
         inputSchema m' = (case inputSchema_u u of None \<Rightarrow> inputSchema m | Some v \<Rightarrow> v) \<and>
         outputSchema m' = (case outputSchema_u u of None \<Rightarrow> outputSchema m | Some v \<Rightarrow> v) \<and>
         latency m' = (case latency_u u of None \<Rightarrow> latency m | Some v \<Rightarrow> v) \<and>
         costPerToken m' = (case costPerToken_u u of None \<Rightarrow> costPerToken m | Some v \<Rightarrow> v) \<and>
         securityPolicy m' =
           (case securityPolicy_u u of None \<Rightarrow> securityPolicy m | Some v \<Rightarrow> v) \<and>
         apiKey m' = (case apiKey_u u of None \<Rightarrow> apiKey m | Some v \<Rightarrow> v) \<and>
         status m' = (case status_u u of None \<Rightarrow> status m | Some v \<Rightarrow> v) \<and>
         healthCheckUrl m' =
           (case healthCheckUrl_u u of None \<Rightarrow> healthCheckUrl m | Some v \<Rightarrow> v) \<and>
         description m' = (case description_u u of None \<Rightarrow> description m | Some v \<Rightarrow> v) \<and>
         tags m' = (case tags_u u of None \<Rightarrow> tags m | Some v \<Rightarrow> v) \<and>
         createdAt m' = (case createdAt_u u of None \<Rightarrow> createdAt m | Some v \<Rightarrow> v) \<and>
         lastChecked m' = (case lastChecked_u u of None \<Rightarrow> lastChecked m | Some v \<Rightarrow> v)"
    apply (rule exI [of _ k])
    apply (rule exI [of _ m])
    apply (rule exI [of _ "spread m u"])
    using k apply (simp add: spread_def)
    done
qed

theorem updateModel_frame_witness:
  "''Z'' \<notin> id_m ` set (getAllModels example_world) \<and>
   updateModel ''Z'' status_latency_update example_world = (None, example_world) \<and>
   ''B'' \<in> id_m ` set (getAllModels example_world) \<and>
   map_option status (fst (updateModel ''B'' status_latency_update example_world)) = Some Online \<and>
   map_option latency (fst (updateModel ''B'' status_latency_update example_world))
     = Some (Finite 1800) \<and>
   map_option endpoint (fst (updateModel ''B'' status_latency_update example_world))
     = Some ''http://b'' \<and>
   getAllModels (snd (updateModel ''B'' status_latency_update example_world)) ! 0 = model_A \<and>
   getAllModels (snd (updateModel ''B'' status_latency_update example_world)) ! 2 = model_C \<and>
   network (snd (updateModel ''B'' status_latency_update example_world)) = []"
proof -
  let ?u = status_latency_update
  have z: "''Z'' \<notin> id_m ` set (getAllModels example_world)" by simp
  have b: "''B'' \<in> id_m ` set (getAllModels example_world)" by simp
  from updateModel_frame [of "''Z''" example_world ?u] z
  have rz: "updateModel ''Z'' ?u example_world = (None, example_world)" by blast
  from updateModel_frame [of "''B''" example_world ?u] b
  obtain k m m' where
    k: "k < length (getAllModels example_world)" "getAllModels example_world ! k = m"
       "id_m m = ''B''"
    and r: "updateModel ''B'' ?u example_world =
              (Some m', example_world\<lparr>kv_models := Some ((getAllModels example_world)[k := m'])\<rparr>)"
    and f: "latency m' = (case latency_u ?u of None \<Rightarrow> latency m | Some v \<Rightarrow> v)"
           "status m' = (case status_u ?u of None \<Rightarrow> status m | Some v \<Rightarrow> v)"
           "endpoint m' = (case endpoint_u ?u of None \<Rightarrow> endpoint m | Some v \<Rightarrow> v)"
    by blast
  from k(1) have "k = 0 \<or> k = 1 \<or> k = 2" by (simp) arith
  with k(2,3) have k1: "k = 1" and m: "m = model_B" by auto
  from f m have "latency m' = Finite 1800" "status m' = Online" "endpoint m' = ''http://b''"
    by (simp_all add: status_latency_update_def no_updates_def model_B_def example_model_def)
  with z b rz r k1 show ?thesis by simp
qed

section \<open>The status of a newly registered model\<close>



section \<open>Running a pipeline\<close>

lemma invoke_kv_executions [simp]:
  "kv_executions (snd (invokeSingleModel env mid input s)) = kv_executions s"
proof (cases "getModelById s mid")
  case None
  then show ?thesis by (simp add: invokeSingleModel_def)
next
  case (Some m)
  then show ?thesis by (simp add: invokeSingleModel_found Let_def)
qed

lemma run_nodes_kv_executions [simp]:
  "kv_executions (snd (run_nodes env ns cur s)) = kv_executions s"
proof (induction ns arbitrary: cur s)
  case Nil
  then show ?case by simp
next
  case (Cons n ns)
  show ?case
  proof (cases "invokeSingleModel env (modelId n) cur s")
    case (Pair r s1)
    then have "kv_executions s1 = kv_executions s"
      using invoke_kv_executions [of env "modelId n" cur s] by simp
    with Pair Cons.IH show ?thesis by (cases r) simp_all
  qed
qed

text \<open>
  Claim C7. \<^verbatim>\<open>executePipeline\<close> returns a record for every pipeline, input, remote behaviour
  and world (an error thrown by a node is caught); the record's status is \<^verbatim>\<open>completed\<close> or
  \<^verbatim>\<open>failed\<close>, never \<^verbatim>\<open>running\<close>; and the execution history afterwards is the history before
  with that one record appended.
\<close>

theorem executePipeline_terminal:
  "status_x (fst (executePipeline env rnd p input s)) \<in> {Completed, Failed} \<and>
   getAllExecutions (snd (executePipeline env rnd p input s)) =
     getAllExecutions s @ [fst (executePipeline env rnd p input s)]"
proof (cases "run_nodes env (nodes p) input s")
  case (Pair r s1)
  have "kv_executions s1 = kv_executions s"
    using run_nodes_kv_executions [of env "nodes p" input s] Pair by simp
  then have "getAllExecutions s1 = getAllExecutions s" by (simp add: getAllExecutions_def)
  with Pair show ?thesis
    by (cases r) (simp_all add: executePipeline_def Let_def getAllExecutions_def)
qed

section \<open>Attempts per invocation\<close>

text \<open>
  Claim C4, as amended. An invocation of a model that the directory holds issues exactly one
  request, whatever comes back; in particular a response that is not \<open>2xx\<close> ends the
  invocation with the error \<^verbatim>\<open>Model invocation failed: <statusText>\<close> after that single
  attempt. An invocation of a model that the directory does not hold issues no request.
\<close>

theorem single_attempt:
  "(getModelById s mid = None \<longrightarrow>
      network (snd (invokeSingleModel env mid input s)) = network s) \<and>
   (getModelById s mid = Some m \<longrightarrow>
      length (network (snd (invokeSingleModel env mid input s))) = length (network s) + 1) \<and>
   (getModelById s mid = Some m \<and>
    env (length (network s)) (build_request m input) = Responds t False statusText j \<longrightarrow>
      fst (invokeSingleModel env mid input s)
        = Inl (Error (''Model invocation failed: '' @ statusText)) \<and>
      network (snd (invokeSingleModel env mid input s)) = network s @ [build_request m input])"
proof (cases "getModelById s mid")
  case None
  then show ?thesis by (simp add: invokeSingleModel_def)
next
  case (Some m0)
  then show ?thesis by (auto simp: invokeSingleModel_found Let_def split: sum.splits)
qed

lemma lookup_B_down: "remote_B_down k (build_request model_B v)
   = Responds 40 False ''Internal Server Error'' (Inr JNull)"
  by (simp add: remote_B_down_def build_request_def model_B_def example_model_def)

theorem single_attempt_witness:
  "getModelById example_world ''Z'' = None \<and>
   network (snd (invokeSingleModel remote_B_down ''Z'' prompt_input example_world)) = [] \<and>
   getModelById example_world ''B'' = Some model_B \<and>
   remote_B_down (length (network example_world)) (build_request model_B prompt_input)
     = Responds 40 False ''Internal Server Error'' (Inr JNull) \<and>
   fst (invokeSingleModel remote_B_down ''B'' prompt_input example_world)
     = Inl (Error ''Model invocation failed: Internal Server Error'') \<and>
   length (network (snd (invokeSingleModel remote_B_down ''B'' prompt_input example_world))) = 1"
  using single_attempt [of example_world "''Z''" remote_B_down prompt_input model_B 40
          "''Internal Server Error''" "Inr JNull"]
        single_attempt [of example_world "''B''" remote_B_down prompt_input model_B 40
          "''Internal Server Error''" "Inr JNull"]
  by (simp add: example_lookup lookup_B_down)

text \<open>
  Against claim C4 as stated: model B's endpoint answers \<open>500\<close> on every call, and the
  invocation ends after one attempt, not after the three that two retries would make.
\<close>

theorem no_retry_on_upstream_error:
  "fst (invokeSingleModel remote_B_down ''B'' prompt_input example_world)
     = Inl (Error ''Model invocation failed: Internal Server Error'') \<and>
   length (network (snd (invokeSingleModel remote_B_down ''B'' prompt_input example_world)))
     \<noteq> 2 + 1"
  by (simp add: invokeSingleModel_found [OF example_lookup(2)] Let_def lookup_B_down)

section \<open>Edges and cycles\<close>

lemma invoke_network_found:
  "getModelById s mid = Some m \<Longrightarrow>
     network (snd (invokeSingleModel env mid input s)) = network s @ [build_request m input]"
  by (simp add: invokeSingleModel_found Let_def)

lemma invoke_network_grows:
  "\<exists>ext. network (snd (invokeSingleModel env mid input s)) = network s @ ext"
proof (cases "getModelById s mid")
  case None
  then show ?thesis by (simp add: invokeSingleModel_def)
next
  case (Some m)
  then show ?thesis by (simp add: invoke_network_found)
qed

lemma run_nodes_network_grows:
  "\<exists>ext. network (snd (run_nodes env ns cur s)) = network s @ ext"
proof (induction ns arbitrary: cur s)
  case Nil
  then show ?case by simp
next
  case (Cons n ns)
  obtain r s1 where inv: "invokeSingleModel env (modelId n) cur s = (r, s1)"
    by (cases "invokeSingleModel env (modelId n) cur s")
  from invoke_network_grows [of env "modelId n" cur s] inv
  obtain e1 where e1: "network s1 = network s @ e1" by auto
  show ?case
  proof (cases r)
    case (Inl err)
    with inv e1 show ?thesis by simp
  next
    case (Inr v)
    from Cons.IH [of v s1] obtain e2 where
      "network (snd (run_nodes env ns v s1)) = network s1 @ e2" by blast
    with inv Inr e1 show ?thesis by simp
  qed
qed

lemma run_nodes_first_request:
  assumes "getModelById s (modelId n) = Some m"
  shows "take (Suc (length (network s))) (network (snd (run_nodes env (n # ns) cur s)))
           = network s @ [build_request m cur]"
proof -
  obtain r s1 where inv: "invokeSingleModel env (modelId n) cur s = (r, s1)"
    by (cases "invokeSingleModel env (modelId n) cur s")
  with invoke_network_found [OF assms, of env cur]
  have n1: "network s1 = network s @ [build_request m cur]" by simp
  show ?thesis
  proof (cases r)
    case (Inl err)
    with inv n1 show ?thesis by simp
  next
    case (Inr v)
    from run_nodes_network_grows [of env ns v s1] obtain e2 where
      "network (snd (run_nodes env ns v s1)) = network s1 @ e2" by blast
    with inv Inr n1 show ?thesis by simp
  qed
qed

lemma executePipeline_network:
  "network (snd (executePipeline env rnd p input s)) = network (snd (run_nodes env (nodes p) input s))"
  by (simp add: executePipeline_def Let_def split: prod.splits)

lemma run_nodes_trace:
  "\<exists>k vs ws.
     k \<le> length ns \<and> length vs = Suc k \<and> length ws = Suc k \<and> vs ! 0 = v \<and> ws ! 0 = s \<and>
     (\<forall>i<k. invokeSingleModel env (modelId (ns ! i)) (vs ! i) (ws ! i)
               = (Inr (vs ! Suc i), ws ! Suc i)) \<and>
     ((k = length ns \<and> run_nodes env ns v s = (Inr (vs ! k), ws ! k)) \<or>
      (k < length ns \<and>
       (\<exists>e sf. invokeSingleModel env (modelId (ns ! k)) (vs ! k) (ws ! k) = (Inl e, sf) \<and>
                run_nodes env ns v s = (Inl e, sf))))"
proof (induction ns arbitrary: v s)
  case Nil
  show ?case
    by (rule exI [of _ 0], rule exI [of _ "[v]"], rule exI [of _ "[s]"]) simp
next
  case (Cons n ns)
  obtain r s1 where inv: "invokeSingleModel env (modelId n) v s = (r, s1)"
    by (cases "invokeSingleModel env (modelId n) v s")
  show ?case
  proof (cases r)
    case (Inl e)
    with inv show ?thesis
      by (intro exI [of _ 0] exI [of _ "[v]"] exI [of _ "[s]"]) simp
  next
    case (Inr v1)
    from Cons.IH [of v1 s1] obtain k vs ws where
      k: "k \<le> length ns" "length vs = Suc k" "length ws = Suc k" "vs ! 0 = v1" "ws ! 0 = s1"
      and step: "\<forall>i<k. invokeSingleModel env (modelId (ns ! i)) (vs ! i) (ws ! i)
                        = (Inr (vs ! Suc i), ws ! Suc i)"
      and fin: "(k = length ns \<and> run_nodes env ns v1 s1 = (Inr (vs ! k), ws ! k)) \<or>
                (k < length ns \<and>
                 (\<exists>e sf. invokeSingleModel env (modelId (ns ! k)) (vs ! k) (ws ! k) = (Inl e, sf) \<and>
                          run_nodes env ns v1 s1 = (Inl e, sf)))"
      by blast
    have step': "\<forall>i<Suc k. invokeSingleModel env (modelId ((n # ns) ! i)) ((v # vs) ! i) ((s # ws) ! i)
                        = (Inr ((v # vs) ! Suc i), (s # ws) ! Suc i)"
    proof (intro allI impI)
      fix i assume "i < Suc k"
      show "invokeSingleModel env (modelId ((n # ns) ! i)) ((v # vs) ! i) ((s # ws) ! i)
              = (Inr ((v # vs) ! Suc i), (s # ws) ! Suc i)"
      proof (cases i)
        case 0
        with inv Inr k show ?thesis by simp
      next
        case (Suc j)
        with \<open>i < Suc k\<close> step show ?thesis by simp
      qed
    qed
    have run: "run_nodes env (n # ns) v s = run_nodes env ns v1 s1"
      using inv Inr by simp
    show ?thesis
      apply (rule exI [of _ "Suc k"])
      apply (rule exI [of _ "v # vs"])
      apply (rule exI [of _ "s # ws"])
      using k step' fin run apply simp
      done
  qed
qed

text \<open>
  Claim C3, as amended. \<^verbatim>\<open>executePipeline\<close> makes no graph check and never reads the edges:
  whatever the edge set is, with or without a cycle, the run (the returned record and the world
  afterwards) is the run of the same node array. The nodes are invoked one after the other in
  array order: there is a number \<open>k\<close> such that the nodes at the indices below \<open>k\<close> are
  invoked in turn and succeed, each on the output of the one before (the first on the initial
  input) and in the world the one before left. Then either \<open>k\<close> is the number of nodes,
  the record is \<^verbatim>\<open>completed\<close> and the world is the last of these with the record appended; or
  the node at index \<open>k\<close> is invoked next and fails, the record is \<^verbatim>\<open>failed\<close>, and the world
  is the one that failure left with the record appended, no later node being invoked. In
  particular the model of the first node, when the directory holds it, is called whatever the
  edges are.
\<close>

theorem nodes_run_in_array_order:
  "executePipeline env rnd (p\<lparr>edges := es\<rparr>) input s = executePipeline env rnd p input s \<and>
   (nodes p = n # ns \<and> getModelById s (modelId n) = Some m \<longrightarrow>
      take (Suc (length (network s))) (network (snd (executePipeline env rnd p input s)))
        = network s @ [build_request m input]) \<and>
   (\<exists>k vs ws.
      k \<le> length (nodes p) \<and> length vs = Suc k \<and> length ws = Suc k \<and>
      vs ! 0 = input \<and> ws ! 0 = s \<and>
      (\<forall>i<k. invokeSingleModel env (modelId (nodes p ! i)) (vs ! i) (ws ! i)
                = (Inr (vs ! Suc i), ws ! Suc i)) \<and>
      ((k = length (nodes p) \<and>
        status_x (fst (executePipeline env rnd p input s)) = Completed \<and>
        snd (executePipeline env rnd p input s) =
          (ws ! k)\<lparr>kv_executions :=
                      Some (getAllExecutions (ws ! k) @ [fst (executePipeline env rnd p input s)])\<rparr>) \<or>
       (k < length (nodes p) \<and>
        (\<exists>e sf. invokeSingleModel env (modelId (nodes p ! k)) (vs ! k) (ws ! k) = (Inl e, sf) \<and>
                 status_x (fst (executePipeline env rnd p input s)) = Failed \<and>
                 snd (executePipeline env rnd p input s) =
                   sf\<lparr>kv_executions :=
                        Some (getAllExecutions sf @ [fst (executePipeline env rnd p input s)])\<rparr>))))"
proof (intro conjI impI)
  show "executePipeline env rnd (p\<lparr>edges := es\<rparr>) input s = executePipeline env rnd p input s"
    by (simp add: executePipeline_def)
next
  assume a: "nodes p = n # ns \<and> getModelById s (modelId n) = Some m"
  then have "getModelById s (modelId n) = Some m" by simp
  from run_nodes_first_request [OF this, of env ns input] a
  show "take (Suc (length (network s))) (network (snd (executePipeline env rnd p input s)))
          = network s @ [build_request m input]"
    by (simp only: executePipeline_network)
next
  from run_nodes_trace [of "nodes p" input s env] obtain k vs ws where
    k: "k \<le> length (nodes p)" "length vs = Suc k" "length ws = Suc k" "vs ! 0 = input"
       "ws ! 0 = s"
    and step: "\<forall>i<k. invokeSingleModel env (modelId (nodes p ! i)) (vs ! i) (ws ! i)
                      = (Inr (vs ! Suc i), ws ! Suc i)"
    and fin: "(k = length (nodes p) \<and> run_nodes env (nodes p) input s = (Inr (vs ! k), ws ! k)) \<or>
              (k < length (nodes p) \<and>
               (\<exists>e sf. invokeSingleModel env (modelId (nodes p ! k)) (vs ! k) (ws ! k) = (Inl e, sf) \<and>
                        run_nodes env (nodes p) input s = (Inl e, sf)))"
    by blast
  let ?x = "fst (executePipeline env rnd p input s)"
  let ?s' = "snd (executePipeline env rnd p input s)"
  from fin have
    "(k = length (nodes p) \<and> status_x ?x = Completed \<and>
        ?s' = (ws ! k)\<lparr>kv_executions := Some (getAllExecutions (ws ! k) @ [?x])\<rparr>) \<or>
     (k < length (nodes p) \<and>
        (\<exists>e sf. invokeSingleModel env (modelId (nodes p ! k)) (vs ! k) (ws ! k) = (Inl e, sf) \<and>
                 status_x ?x = Failed \<and>
                 ?s' = sf\<lparr>kv_executions := Some (getAllExecutions sf @ [?x])\<rparr>))"
  proof
    assume "k = length (nodes p) \<and> run_nodes env (nodes p) input s = (Inr (vs ! k), ws ! k)"
    then show ?thesis by (simp add: executePipeline_def Let_def)
  next
    assume "k < length (nodes p) \<and>
               (\<exists>e sf. invokeSingleModel env (modelId (nodes p ! k)) (vs ! k) (ws ! k) = (Inl e, sf) \<and>
                        run_nodes env (nodes p) input s = (Inl e, sf))"
    then obtain e sf where
      "k < length (nodes p)"
      "invokeSingleModel env (modelId (nodes p ! k)) (vs ! k) (ws ! k) = (Inl e, sf)"
      "run_nodes env (nodes p) input s = (Inl e, sf)" by blast
    then show ?thesis by (simp add: executePipeline_def Let_def)
  qed
  with k step show "\<exists>k vs ws.
      k \<le> length (nodes p) \<and> length vs = Suc k \<and> length ws = Suc k \<and>
      vs ! 0 = input \<and> ws ! 0 = s \<and>
      (\<forall>i<k. invokeSingleModel env (modelId (nodes p ! i)) (vs ! i) (ws ! i)
                = (Inr (vs ! Suc i), ws ! Suc i)) \<and>
      ((k = length (nodes p) \<and> status_x ?x = Completed \<and>
        ?s' = (ws ! k)\<lparr>kv_executions := Some (getAllExecutions (ws ! k) @ [?x])\<rparr>) \<or>
       (k < length (nodes p) \<and>
        (\<exists>e sf. invokeSingleModel env (modelId (nodes p ! k)) (vs ! k) (ws ! k) = (Inl e, sf) \<and>
                 status_x ?x = Failed \<and>
                 ?s' = sf\<lparr>kv_executions := Some (getAllExecutions sf @ [?x])\<rparr>)))"
    by blast
qed

lemma cyclic_has_cycle: "has_cycle cyclic_pipeline"
proof -
  have e: "edge_rel cyclic_pipeline = {(''nA'', ''nC''), (''nC'', ''nA'')}"
    by (simp add: edge_rel_def cyclic_pipeline_def example_pipeline_def example_edge_def)
  have "(''nA'', ''nA'') \<in> (edge_rel cyclic_pipeline)\<^sup>+"
    unfolding e by (rule trancl_into_trancl [OF r_into_trancl]) simp_all
  then show ?thesis
    by (simp add: has_cycle_def cyclic_pipeline_def example_pipeline_def example_node_def)
qed

theorem nodes_run_in_array_order_witness:
  "has_cycle cyclic_pipeline \<and>
   nodes cyclic_pipeline = [example_node ''nA'' ''A'', example_node ''nC'' ''C''] \<and>
   getModelById example_world (modelId (example_node ''nA'' ''A'')) = Some model_A \<and>
   executePipeline remote_up ''r'' (cyclic_pipeline\<lparr>edges := []\<rparr>) prompt_input example_world
     = executePipeline remote_up ''r'' cyclic_pipeline prompt_input example_world \<and>
   take 1 (network (snd (executePipeline remote_up ''r'' cyclic_pipeline prompt_input
                           example_world)))
     = [build_request model_A prompt_input] \<and>
   status_x (fst (executePipeline remote_up ''r'' cyclic_pipeline prompt_input example_world))
     = Completed \<and>
   network (snd (executePipeline remote_up ''r'' cyclic_pipeline prompt_input example_world))
     = [build_request model_A prompt_input, build_request model_C good_output]"
proof -
  let ?p = cyclic_pipeline
  let ?x = "fst (executePipeline remote_up ''r'' ?p prompt_input example_world)"
  let ?s' = "snd (executePipeline remote_up ''r'' ?p prompt_input example_world)"
  let ?s1 = "snd (invokeSingleModel remote_up ''A'' prompt_input example_world)"
  let ?s2 = "snd (invokeSingleModel remote_up ''C'' good_output ?s1)"
  note inst = nodes_run_in_array_order [where env = remote_up and rnd = "''r''" and p = ?p
      and es = "[]" and input = prompt_input and s = example_world
      and n = "example_node ''nA'' ''A''" and ns = "[example_node ''nC'' ''C'']" and m = model_A]
  have ns: "nodes ?p = [example_node ''nA'' ''A'', example_node ''nC'' ''C'']"
    by (simp add: cyclic_pipeline_def example_pipeline_def)
  have ids: "modelId (nodes ?p ! 0) = ''A''" "modelId (nodes ?p ! Suc 0) = ''C''"
    by (simp_all add: ns example_node_def)
  have a: "invokeSingleModel remote_up ''A'' prompt_input example_world = (Inr good_output, ?s1)"
    by (simp add: prod_eq_iff) (simp add: example_run_defs remote_up_def)
  have c: "invokeSingleModel remote_up ''C'' good_output ?s1 = (Inr good_output, ?s2)"
    by (simp add: prod_eq_iff) (simp add: example_run_defs remote_up_def)
  have net: "network ?s2 = [build_request model_A prompt_input, build_request model_C good_output]"
    by (simp add: example_run_defs remote_up_def)
  from inst obtain k vs ws where
    k: "k \<le> length (nodes ?p)" "vs ! 0 = prompt_input" "ws ! 0 = example_world"
    and step: "\<forall>i<k. invokeSingleModel remote_up (modelId (nodes ?p ! i)) (vs ! i) (ws ! i)
                      = (Inr (vs ! Suc i), ws ! Suc i)"
    and fin: "(k = length (nodes ?p) \<and> status_x ?x = Completed \<and>
                 ?s' = (ws ! k)\<lparr>kv_executions := Some (getAllExecutions (ws ! k) @ [?x])\<rparr>) \<or>
              (k < length (nodes ?p) \<and>
                 (\<exists>e sf. invokeSingleModel remote_up (modelId (nodes ?p ! k)) (vs ! k) (ws ! k)
                            = (Inl e, sf) \<and> status_x ?x = Failed \<and>
                          ?s' = sf\<lparr>kv_executions := Some (getAllExecutions sf @ [?x])\<rparr>))"
    by blast
  have k0: "k \<noteq> 0"
  proof
    assume "k = 0"
    with fin ns k ids a show False by auto
  qed
  then have s0: "vs ! Suc 0 = good_output \<and> ws ! Suc 0 = ?s1"
    using step [rule_format, of 0] k ids a by simp
  have k1: "k \<noteq> Suc 0"
  proof
    assume "k = Suc 0"
    with fin ns s0 ids c show False by auto
  qed
  with k0 k(1) ns have k2: "k = 2" by simp
  then have "ws ! 2 = ?s2"
    using step [rule_format, of "Suc 0"] s0 ids c by (simp add: numeral_2_eq_2)
  with fin k2 ns have "status_x ?x = Completed" "network ?s' = network ?s2"
    by auto
  with inst net ns show ?thesis
    by (simp add: cyclic_has_cycle example_lookup example_node_def)
qed

text \<open>
  Against claim C3 as stated: the two nodes of \<open>cyclic_pipeline\<close> feed each other, yet the
  run is not rejected. Both models are called over the network and the record is
  \<^verbatim>\<open>completed\<close>.
\<close>

theorem cycle_is_executed:
  "has_cycle cyclic_pipeline \<and>
   status_x (fst (executePipeline remote_up ''r'' cyclic_pipeline prompt_input example_world))
     = Completed \<and>
   map url (network (snd (executePipeline remote_up ''r'' cyclic_pipeline prompt_input
                            example_world)))
     = [''http://a'', ''http://c'']"
  by (simp add: cyclic_has_cycle)
     (simp add: example_run_defs cyclic_pipeline_def remote_up_def)

section \<open>A failing node\<close>

text \<open>
  Claim C1, as amended. When the node array of a pipeline starts with A and B (any nodes may
  follow), the invocation of A succeeds and the invocation of B on A's output fails, then
  \<^verbatim>\<open>executePipeline\<close> returns a record with status \<^verbatim>\<open>failed\<close> and no node listed after B is
  invoked: the network log and the directory are as B's failed invocation left them, and the
  world differs from that one by the appended record only.
\<close>

theorem failure_stops_pipeline:
  assumes "nodes p = a # b # rest"
    and "invokeSingleModel env (modelId a) input s = (Inr out, s1)"
    and "invokeSingleModel env (modelId b) out s1 = (Inl e, s2)"
  shows "status_x (fst (executePipeline env rnd p input s)) = Failed \<and>
         network (snd (executePipeline env rnd p input s)) = network s2 \<and>
         kv_models (snd (executePipeline env rnd p input s)) = kv_models s2 \<and>
         snd (executePipeline env rnd p input s) =
           s2\<lparr>kv_executions :=
                 Some (getAllExecutions s2 @ [fst (executePipeline env rnd p input s)])\<rparr>"
proof -
  from assms have "run_nodes env (nodes p) input s = (Inl e, s2)" by simp
  then show ?thesis by (simp add: executePipeline_def Let_def)
qed

theorem failure_stops_pipeline_witness:
  "nodes chain_in_order
     = [example_node ''nA'' ''A'', example_node ''nB'' ''B'', example_node ''nC'' ''C''] \<and>
   fst (invokeSingleModel remote_B_down ''A'' prompt_input example_world) = Inr good_output \<and>
   fst (invokeSingleModel remote_B_down ''B'' good_output
          (snd (invokeSingleModel remote_B_down ''A'' prompt_input example_world)))
     = Inl (Error ''Model invocation failed: Internal Server Error'') \<and>
   status_x (fst (executePipeline remote_B_down ''r'' chain_in_order prompt_input example_world))
     = Failed \<and>
   map url (network (snd (executePipeline remote_B_down ''r'' chain_in_order prompt_input
                            example_world)))
     = [''http://a'', ''http://b'']"
proof -
  let ?s1 = "snd (invokeSingleModel remote_B_down ''A'' prompt_input example_world)"
  let ?s2 = "snd (invokeSingleModel remote_B_down ''B'' good_output ?s1)"
  let ?e = "Error ''Model invocation failed: Internal Server Error''"
  have n: "nodes chain_in_order
     = example_node ''nA'' ''A'' # example_node ''nB'' ''B'' # [example_node ''nC'' ''C'']"
    by (simp add: chain_in_order_def example_pipeline_def)
  have a: "fst (invokeSingleModel remote_B_down ''A'' prompt_input example_world) = Inr good_output"
    by (simp add: example_run_defs remote_B_down_def)
  have b: "fst (invokeSingleModel remote_B_down ''B'' good_output ?s1) = Inl ?e"
    by (simp add: example_run_defs remote_B_down_def)
  have net: "map url (network ?s2) = [''http://a'', ''http://b'']"
    by (simp add: example_run_defs remote_B_down_def)
  have a': "invokeSingleModel remote_B_down (modelId (example_node ''nA'' ''A'')) prompt_input
              example_world = (Inr good_output, ?s1)"
    using a by (simp add: prod_eq_iff example_node_def)
  have b': "invokeSingleModel remote_B_down (modelId (example_node ''nB'' ''B'')) good_output ?s1
              = (Inl ?e, ?s2)"
    using b by (simp add: prod_eq_iff example_node_def)
  from failure_stops_pipeline [OF n a' b', of "''r''"] n a b net show ?thesis by simp
qed

text \<open>
  Against claim C1 as stated: the edges of \<open>chain_out_of_order\<close> form the chain
  A \<open>\<rightarrow>\<close> B \<open>\<rightarrow>\<close> C and its node array is A, C, B. Model A succeeds and model B fails, as the
  statuses in the directory show afterwards; the record is \<^verbatim>\<open>failed\<close>, but it does not hold
  two invocations, and model C was called (before B, in array order).
\<close>

theorem out_of_order_chain_runs_C:
  "edge_rel chain_out_of_order = {(''nA'', ''nB''), (''nB'', ''nC'')} \<and>
   status_x (fst (executePipeline remote_B_down ''r'' chain_out_of_order prompt_input
                    example_world)) = Failed \<and>
   length (invocations (fst (executePipeline remote_B_down ''r'' chain_out_of_order prompt_input
                               example_world))) \<noteq> 2 \<and>
   map url (network (snd (executePipeline remote_B_down ''r'' chain_out_of_order prompt_input
                            example_world)))
     = [''http://a'', ''http://c'', ''http://b''] \<and>
   map status (getAllModels (snd (executePipeline remote_B_down ''r'' chain_out_of_order
                                    prompt_input example_world)))
     = [Online, ErrorStatus, Online]"
  by (simp add: example_run_defs chain_out_of_order_def edge_rel_def remote_B_down_def)

section \<open>Input that does not fit the schema\<close>

text \<open>
  Claim C2 at a failing input. The empty object lacks the \<^verbatim>\<open>prompt\<close> that model A's input
  schema requires. Invoking model A with it nevertheless issues the request, returns the
  remote output, and turns the model's status from \<^verbatim>\<open>offline\<close> to \<^verbatim>\<open>online\<close>.
\<close>

theorem unvalidated_input_is_sent:
  "validate (JObject []) (inputSchema model_A) = ValidationError ''prompt'' ''required'' \<and>
   getModelById example_world ''A'' = Some model_A \<and>
   status model_A = Offline \<and>
   fst (invokeSingleModel remote_up ''A'' (JObject []) example_world) = Inr good_output \<and>
   network (snd (invokeSingleModel remote_up ''A'' (JObject []) example_world))
     = [build_request model_A (JObject [])] \<and>
   map_option status
     (getModelById (snd (invokeSingleModel remote_up ''A'' (JObject []) example_world)) ''A'')
     = Some Online"
  by (simp add: example_run_defs remote_up_def validate_def prompt_schema_def check_type_def
      check_required_def check_enum_def check_minimum_def check_maximum_def check_maxLength_def
      type_matches_def)

end
